theory Spec2Isabelle
  imports Main "HOL-Library.AList" "HOL-Library.Sublist"
begin

section \<open>Exceptions and Python values\<close>

text \<open>
  Every exception the modelled code can raise is a value of \<open>error\<close>; a function that may
  raise returns \<open>error + 'a\<close> with \<open>Inl\<close> for the exception.  The source defines no
  exception class of its own: what the specification calls \<open>MalformedEvent\<close> is, in the
  code, the \<open>KeyError\<close>, \<open>TypeError\<close> or \<open>AttributeError\<close> raised inside
  \<open>Event.from_dict\<close>.
\<close>

datatype error =
    KeyError
  | TypeError
  | AttributeError
  | IndexError
  | FileNotFoundError
  | JSONDecodeError
  | RpcError

text \<open>
  A dictionary built by the parser maps strings to strings and keeps insertion order
  (\<open>len(result)\<close> is read by the parser), so it is an association list with distinct
  keys: \<open>result.get(k)\<close> is \<open>map_of result k\<close>, \<open>result[k] = v\<close> is
  \<open>AList.update k v result\<close> and \<open>len(result)\<close> is \<open>length result\<close>.
\<close>

type_synonym py_dict = "(string \<times> string) list"

text \<open>Truthiness of \<open>None\<close> and of a string, and the operator \<open>a or b\<close> on such values.\<close>

fun truthy :: "string option \<Rightarrow> bool" where
  "truthy None = False"
| "truthy (Some s) = (s \<noteq> [])"

definition py_or :: "string option \<Rightarrow> string option \<Rightarrow> string option" where
  "py_or a b = (if truthy a then a else b)"

text \<open>
  The value held by \<open>Event.match_others\<close>: the constructor's default is the boolean
  \<open>True\<close>, while \<open>from_dict\<close> passes what \<open>dict.get\<close> returned, a string or \<open>None\<close>.
\<close>

datatype py_value = PyNone | PyStr string | PyBool bool

fun of_get :: "string option \<Rightarrow> py_value" where
  "of_get None = PyNone"
| "of_get (Some s) = PyStr s"

section \<open>The event model\<close>

datatype ActionType = REFUND | TRANSFER | PARTIAL_TRANSFER | CREATE

fun action_value :: "ActionType \<Rightarrow> string" where
  "action_value REFUND = ''refund''"
| "action_value TRANSFER = ''transfer''"
| "action_value PARTIAL_TRANSFER = ''partial_transfer''"
| "action_value CREATE = ''create''"

text \<open>
  The fields of \<open>Event\<close> (\<open>id\<close> is \<open>event_id\<close> here, \<open>id\<close> being a constant of HOL).
  \<open>from_dict\<close> fills \<open>id\<close>, \<open>action\<close> and the address, amount and price fields with the
  result of \<open>dict.get\<close>, so they are a string or \<open>None\<close>.
\<close>

record Event =
  event_id :: "string option"
  txn_hash :: string
  action :: "string option"
  from_address :: "string option"
  to_address :: "string option"
  amount :: "string option"
  trade_pair :: string
  sell_price :: "string option"
  escrow_address :: "string option"
  remaining_amount :: "string option"
  preferred_agent :: "string option"
  match_others :: py_value

text \<open>
  \<open>Event.__init__\<close>.  The last parameter has the default \<open>True\<close>: an omitted argument is
  \<open>None\<close> of the option type here, a passed one (also a passed Python \<open>None\<close>) is \<open>Some\<close>.
\<close>

definition Event_init ::
  "string option \<Rightarrow> string \<Rightarrow> string option \<Rightarrow> string option \<Rightarrow> string option \<Rightarrow> string option \<Rightarrow>
   string \<Rightarrow> string option \<Rightarrow> string option \<Rightarrow> string option \<Rightarrow> string option \<Rightarrow>
   py_value option \<Rightarrow> Event" where
  "Event_init i h a f t am tp sp ea ra pa mo =
     \<lparr> event_id = i, txn_hash = h, action = a, from_address = f, to_address = t, amount = am,
       trade_pair = tp, sell_price = sp, escrow_address = ea, remaining_amount = ra,
       preferred_agent = pa,
       match_others = (case mo of None \<Rightarrow> PyBool True | Some v \<Rightarrow> v) \<rparr>"

text \<open>
  The character class \<open>[A-Za-z/]\<close> of the regular expression in \<open>extract_trade_pair\<close>:
  the ASCII letters, by code point, and the slash.
\<close>

definition is_trade_pair_char :: "char \<Rightarrow> bool" where
  "is_trade_pair_char c =
     (let n = (of_char c :: nat)
      in (65 \<le> n \<and> n \<le> 90) \<or> (97 \<le> n \<and> n \<le> 122) \<or> c = CHR ''/'')"

text \<open>
  \<open>re.match(r"([A-Za-z/]+)", s)\<close>: anchored at the start of \<open>s\<close>, the greedy quantifier
  takes every leading character of the class; there is a match only if it took at least
  one.  The result is group 1 of the match.
\<close>

definition re_match_trade_pair :: "string \<Rightarrow> string option" where
  "re_match_trade_pair s =
     (let run = takeWhile is_trade_pair_char s in if run = [] then None else Some run)"

text \<open>
  \<open>Event.extract_trade_pair\<close>.  \<open>re.match\<close> raises \<open>TypeError\<close> on \<open>None\<close>; where nothing
  matches it returns \<open>None\<close>, and \<open>.group\<close> on that raises \<open>AttributeError\<close>.
\<close>

definition extract_trade_pair :: "string option \<Rightarrow> error + string" where
  "extract_trade_pair i =
     (case i of
        None \<Rightarrow> Inl TypeError
      | Some s \<Rightarrow>
          (case re_match_trade_pair s of
             None \<Rightarrow> Inl AttributeError
           | Some g \<Rightarrow> Inr g))"

text \<open>
  \<open>Event.from_dict\<close>.  \<open>event_dict["TxnHash"]\<close> raises \<open>KeyError\<close> when the key is
  missing; the trade pair is extracted before the remaining fields are read, and every
  argument of the constructor is passed, \<open>match_others\<close> included.
\<close>

definition from_dict :: "py_dict \<Rightarrow> error + Event" where
  "from_dict event_dict =
     (case map_of event_dict ''TxnHash'' of
        None \<Rightarrow> Inl KeyError
      | Some h \<Rightarrow>
          (let a = py_or (map_of event_dict ''action'') (map_of event_dict ''action1'');
               f = py_or (map_of event_dict ''from'') (map_of event_dict ''from1'');
               t = py_or (map_of event_dict ''to'') (map_of event_dict ''to1'');
               am = py_or (map_of event_dict ''amount'') (map_of event_dict ''amount1'');
               i = py_or (map_of event_dict ''id'') (map_of event_dict ''id1'')
           in case extract_trade_pair i of
                Inl e \<Rightarrow> Inl e
              | Inr tp \<Rightarrow>
                  (let sp = py_or (map_of event_dict ''sell_price'')
                                  (map_of event_dict ''sell_price1'');
                       ea = map_of event_dict ''escrow_contract_address'';
                       ra = py_or (map_of event_dict ''remaining_amount'')
                                  (map_of event_dict ''remaining_amount1'');
                       pa = py_or (map_of event_dict ''preferred_agent'')
                                  (map_of event_dict ''preferred_agent1'');
                       mo = py_or (map_of event_dict ''match_others'')
                                  (map_of event_dict ''match_others1'')
                   in Inr (Event_init i h a f t am tp sp ea ra pa (Some (of_get mo))))))"

section \<open>String operations of the log parser\<close>

text \<open>
  \<open>s.replace(old, "")\<close> for a non-empty \<open>old\<close>: the occurrences of \<open>old\<close> are found
  from the left, without overlap, and removed.
\<close>

fun str_remove :: "string \<Rightarrow> string \<Rightarrow> string" where
  "str_remove old [] = []"
| "str_remove old (c # cs) =
     (if old \<noteq> [] \<and> prefix old (c # cs)
      then str_remove old (drop (length old - 1) cs)
      else c # str_remove old cs)"

text \<open>
  \<open>s.split(sep)\<close> for a non-empty \<open>sep\<close>: the pieces between the occurrences of
  \<open>sep\<close>, found from the left without overlap; a string without \<open>sep\<close> is one piece.
  \<open>cur\<close> holds the current piece, reversed.
\<close>

fun str_split_from :: "string \<Rightarrow> string \<Rightarrow> string \<Rightarrow> string list" where
  "str_split_from sep cur [] = [rev cur]"
| "str_split_from sep cur (c # cs) =
     (if prefix sep (c # cs)
      then rev cur # str_split_from sep [] (drop (length sep - 1) cs)
      else str_split_from sep (c # cur) cs)"

definition str_split :: "string \<Rightarrow> string \<Rightarrow> string list" where
  "str_split sep s = str_split_from sep [] s"

text \<open>\<open>sub in s\<close> on strings.\<close>

fun str_contains :: "string \<Rightarrow> string \<Rightarrow> bool" where
  "str_contains sub [] = (sub = [])"
| "str_contains sub (c # cs) = (prefix sub (c # cs) \<or> str_contains sub cs)"

text \<open>\<open>xs[n]\<close> for \<open>n \<ge> 0\<close>, which raises \<open>IndexError\<close> out of range.\<close>

definition index :: "'a list \<Rightarrow> nat \<Rightarrow> error + 'a" where
  "index xs n = (if n < length xs then Inr (xs ! n) else Inl IndexError)"

text \<open>
  A \<open>for\<close> loop over a list whose body updates a state and may raise: the first exception
  ends the loop and is the result.
\<close>

fun for_each :: "('s \<Rightarrow> 'a \<Rightarrow> error + 's) \<Rightarrow> 's \<Rightarrow> 'a list \<Rightarrow> error + 's" where
  "for_each body s [] = Inr s"
| "for_each body s (x # xs) =
     (case body s x of Inl e \<Rightarrow> Inl e | Inr s' \<Rightarrow> for_each body s' xs)"

section \<open>The log parser and the event filter\<close>

text \<open>
  A transaction of the response: its hash and its logs.  The parser reads a log only
  through \<open>str(obj.events)\<close>, the text rendering of the log's events made by the
  protobuf library, so a log is that text here.
\<close>

record TxResponse =
  txhash :: string
  logs :: "string list"

definition dquote :: string where
  "dquote = [CHR 0x22]"

definition wasm_tag :: string where
  "wasm_tag = ''type: '' @ dquote @ ''wasm'' @ dquote"

definition key_tag :: string where
  "key_tag = ''key: '' @ dquote"

text \<open>
  The normalisation of one log: brackets, newlines and double blanks are removed and the
  text is cut at the commas.
\<close>

definition json_events :: "string \<Rightarrow> string list" where
  "json_events events =
     str_split '',''
       (str_remove ''  '' (str_remove [CHR 0x0A] (str_remove '']'' (str_remove ''['' events))))"

text \<open>
  The body of the loop \<open>for pair in pairs\<close>.  The key is the text before the first
  double quote of the pair and the value the text between the second and the third.
  For \<open>_contract_address\<close> the bag key is chosen by \<open>len(result) - 1\<close>, the number of
  entries the bag holds besides the transaction hash.  For any other key,
  \<open>result.get(key, 0) + 1\<close> is \<open>1\<close> when the bag has no entry under \<open>key\<close>, so that the
  value is stored under \<open>key\<close> followed by \<open>1\<close>; when the bag has an entry the sum of
  a string and a number raises \<open>TypeError\<close>.
\<close>

definition add_pair :: "py_dict \<Rightarrow> string \<Rightarrow> error + py_dict" where
  "add_pair result pair =
     (let parts = str_split dquote pair
      in case index parts 0 of
           Inl e \<Rightarrow> Inl e
         | Inr key \<Rightarrow>
             (case index parts 2 of
                Inl e \<Rightarrow> Inl e
              | Inr val \<Rightarrow>
                  if key = ''_contract_address''
                  then
                    (let contract_count = int (length result) - 1;
                         key' = (if contract_count = 0 then ''cw20_contract_address''
                                 else ''escrow_contract_address'')
                     in Inr (AList.update key' val result))
                  else
                    (case map_of result key of
                       Some v \<Rightarrow> Inl TypeError
                     | None \<Rightarrow> Inr (AList.update (key @ ''1'') val result))))"

text \<open>
  The attribute pairs of one wasm-tagged event and the bag built from them, which starts
  with the transaction hash.
\<close>

definition event_pairs :: "string \<Rightarrow> string list" where
  "event_pairs event =
     tl (str_split key_tag (str_remove ''attributes {'' (str_remove wasm_tag event)))"

definition parse_bag :: "string \<Rightarrow> string \<Rightarrow> error + py_dict" where
  "parse_bag h event = for_each add_pair [(''TxnHash'', h)] (event_pairs event)"

text \<open>
  The argument \<open>action_type\<close> of \<open>fetch_events\<close> and \<open>_filter_events\<close>: \<open>None\<close>, one
  \<open>ActionType\<close> or a list of them.
\<close>

datatype action_arg = Single ActionType | Listed "ActionType list"

fun action_types_of :: "action_arg option \<Rightarrow> ActionType list" where
  "action_types_of None = []"
| "action_types_of (Some (Single a)) = [a]"
| "action_types_of (Some (Listed as)) = as"

definition action_mismatch :: "action_arg option \<Rightarrow> py_dict \<Rightarrow> bool" where
  "action_mismatch action_type result =
     (action_type \<noteq> None \<and> action_types_of action_type \<noteq> [] \<and>
      list_all (\<lambda>a. map_of result ''action'' \<noteq> Some (action_value a) \<and>
                    map_of result ''action1'' \<noteq> Some (action_value a))
               (action_types_of action_type))"

definition wallet_mismatch :: "string option \<Rightarrow> py_dict \<Rightarrow> bool" where
  "wallet_mismatch user_wallet_address result =
     (case user_wallet_address of
        None \<Rightarrow> False
      | Some w \<Rightarrow> map_of result ''from'' \<noteq> Some w \<and> map_of result ''from1'' \<noteq> Some w)"

text \<open>
  The body of the loop \<open>for event in json_events\<close>, with \<open>filtered_data\<close> as its state:
  an event without the wasm tag and a bag that a filter rejects leave the list as it
  is; any other bag is decoded and appended.  Nothing catches an exception of the
  parser or of \<open>from_dict\<close>.
\<close>

definition filter_event ::
  "action_arg option \<Rightarrow> string option \<Rightarrow> string \<Rightarrow> Event list \<Rightarrow> string \<Rightarrow> error + Event list" where
  "filter_event action_type user_wallet_address h filtered_data event =
     (if str_contains wasm_tag event
      then
        (case parse_bag h event of
           Inl e \<Rightarrow> Inl e
         | Inr result \<Rightarrow>
             if action_mismatch action_type result then Inr filtered_data
             else if wallet_mismatch user_wallet_address result then Inr filtered_data
             else (case from_dict result of
                     Inl e \<Rightarrow> Inl e
                   | Inr ev \<Rightarrow> Inr (filtered_data @ [ev])))
      else Inr filtered_data)"

definition filter_log ::
  "action_arg option \<Rightarrow> string option \<Rightarrow> string \<Rightarrow> Event list \<Rightarrow> string \<Rightarrow> error + Event list" where
  "filter_log action_type user_wallet_address h filtered_data events =
     for_each (filter_event action_type user_wallet_address h) filtered_data (json_events events)"

definition filter_tx ::
  "action_arg option \<Rightarrow> string option \<Rightarrow> Event list \<Rightarrow> TxResponse \<Rightarrow> error + Event list" where
  "filter_tx action_type user_wallet_address filtered_data tx =
     for_each (filter_log action_type user_wallet_address (txhash tx)) filtered_data (logs tx)"

text \<open>\<open>EventRetriever._filter_events\<close>.\<close>

definition filter_events ::
  "TxResponse list \<Rightarrow> action_arg option \<Rightarrow> string option \<Rightarrow> error + Event list" where
  "filter_events resp action_type user_wallet_address =
     for_each (filter_tx action_type user_wallet_address) [] resp"

section \<open>The paginated query\<close>

text \<open>
  The transaction query service as the loop sees it: \<open>GetTxsEvent\<close> called with the event
  queries and an offset answers with a page (\<open>tx_responses\<close>) and the total it reports
  (\<open>pagination.total\<close>), or raises.
\<close>

type_synonym 'tx tx_service = "string list \<Rightarrow> nat \<Rightarrow> error + ('tx list \<times> nat)"

text \<open>
  The loop of \<open>_query_txs_events\<close>, from the state it has before a call.  \<open>while True\<close>
  has no bound, so the loop is a partial function and \<open>None\<close> is the run that never
  leaves it.  \<open>calls\<close> records the offset of every request sent, in order; the source
  has no such variable, it is the trace of the loop's calls to the service.
\<close>

partial_function (option) query_loop ::
  "'tx tx_service \<Rightarrow> string list \<Rightarrow> nat \<Rightarrow> 'tx list \<Rightarrow> nat list \<Rightarrow>
   ((error + 'tx list) \<times> nat list) option" where
  "query_loop txs queries offset res calls =
     (case txs queries offset of
        Inl e \<Rightarrow> Some (Inl e, calls @ [offset])
      | Inr tx_res \<Rightarrow>
          (let res' = res @ fst tx_res;
               offset' = offset + length (fst tx_res)
           in if offset' \<ge> snd tx_res
              then Some (Inr res', calls @ [offset])
              else query_loop txs queries offset' res' (calls @ [offset])))"

text \<open>\<open>EventRetriever._query_txs_events\<close>: the loop from \<open>offset = 0\<close> and \<open>res = []\<close>.\<close>

definition query_txs_events ::
  "'tx tx_service \<Rightarrow> string list \<Rightarrow> ((error + 'tx list) \<times> nat list) option" where
  "query_txs_events txs queries = query_loop txs queries 0 [] []"

text \<open>\<open>EventRetriever._get_events\<close>.\<close>

definition get_events ::
  "'tx tx_service \<Rightarrow> string \<Rightarrow> string option \<Rightarrow> ((error + 'tx list) \<times> nat list) option" where
  "get_events txs contract_address wasm_action =
     (let queries = [''execute._contract_address='' @ [CHR 0x27] @ contract_address @ [CHR 0x27]];
          queries' = (case wasm_action of
                        None \<Rightarrow> queries
                      | Some a \<Rightarrow> queries @ [''wasm.action='' @ [CHR 0x27] @ a @ [CHR 0x27]])
      in query_txs_events txs queries')"

section \<open>The retriever and its processed-events file\<close>

text \<open>
  The state of an \<open>EventRetriever\<close>.  \<open>processed_events\<close> is a Python set of strings.
\<close>

record EventRetriever =
  contract_address :: string
  grpc_url :: string
  processed_events :: "string set"
  processed_events_file :: string

text \<open>\<open>EventRetriever.__init__\<close>, whose \<open>file_name\<close> defaults to \<open>processsed_events\<close>.\<close>

definition EventRetriever_init :: "string \<Rightarrow> string \<Rightarrow> string option \<Rightarrow> EventRetriever" where
  "EventRetriever_init ca url file_name =
     \<lparr> contract_address = ca, grpc_url = url, processed_events = {},
       processed_events_file =
         (case file_name of None \<Rightarrow> ''processsed_events'' | Some n \<Rightarrow> n) @ ''.json'' \<rparr>"

text \<open>
  The files the retriever reads and writes, by name.  A file that exists either does not
  parse as JSON or holds a JSON array of strings, the only thing \<open>fetch_events\<close> writes;
  \<open>load_processed_events\<close> turns the array into a set at once and \<open>fetch_events\<close>
  writes a set in no particular order, so the array is kept as the set of its elements.
\<close>

datatype file_content = NotJson | JsonArray "string set"

type_synonym file_system = "string \<Rightarrow> file_content option"

text \<open>\<open>set(json.load(f))\<close> on the file opened for reading.\<close>

definition read_json_set :: "file_system \<Rightarrow> string \<Rightarrow> error + string set" where
  "read_json_set fs name =
     (case fs name of
        None \<Rightarrow> Inl FileNotFoundError
      | Some NotJson \<Rightarrow> Inl JSONDecodeError
      | Some (JsonArray xs) \<Rightarrow> Inr xs)"

text \<open>
  \<open>EventRetriever.load_processed_events\<close>.  The \<open>except\<close> clause names
  \<open>FileNotFoundError\<close> alone: that exception is dropped and the set is left as it
  was, any other leaves the method.
\<close>

definition load_processed_events ::
  "bool \<Rightarrow> file_system \<Rightarrow> EventRetriever \<Rightarrow> error + EventRetriever" where
  "load_processed_events discard_processed_events fs self =
     (if discard_processed_events
      then (case read_json_set fs (processed_events_file self) of
              Inr xs \<Rightarrow> Inr (self\<lparr>processed_events := xs\<rparr>)
            | Inl e \<Rightarrow> if e = FileNotFoundError then Inr self else Inl e)
      else Inr self)"

text \<open>
  \<open>EventRetriever.fetch_events\<close>, on the retriever and the files, with the query service
  \<open>txs\<close> that \<open>_get_grpc_client\<close> connects to.  The result is what the call returns or
  raises, with the retriever and the files as the call leaves them; \<open>None\<close> is the call
  whose pagination never ends.  Writing the file is taken to succeed.
\<close>

definition fetch_events ::
  "TxResponse tx_service \<Rightarrow> bool \<Rightarrow> action_arg option \<Rightarrow> string option \<Rightarrow>
   EventRetriever \<times> file_system \<Rightarrow>
   ((error + Event list) \<times> EventRetriever \<times> file_system) option" where
  "fetch_events txs discard_processed_events action_type user_wallet_address w =
     (case w of (self, fs) \<Rightarrow>
        (case load_processed_events discard_processed_events fs self of
           Inl e \<Rightarrow> Some (Inl e, self, fs)
         | Inr self1 \<Rightarrow>
             (case get_events txs (contract_address self1) None of
                None \<Rightarrow> None
              | Some (Inl e, calls) \<Rightarrow> Some (Inl e, self1, fs)
              | Some (Inr txn_events, calls) \<Rightarrow>
                  (case filter_events txn_events action_type user_wallet_address of
                     Inl e \<Rightarrow> Some (Inl e, self1, fs)
                   | Inr evs \<Rightarrow>
                       (let events_to_send =
                              filter (\<lambda>event. txn_hash event \<notin> processed_events self1) evs
                        in if discard_processed_events
                           then
                             (let self2 = self1\<lparr>processed_events :=
                                            processed_events self1 \<union>
                                            set (map txn_hash events_to_send)\<rparr>;
                                  fs2 = fs(processed_events_file self2 \<mapsto>
                                             JsonArray (processed_events self2))
                              in Some (Inr events_to_send, self2, fs2))
                           else Some (Inr events_to_send, self1, fs))))))"

section \<open>Notions used to state the properties\<close>

text \<open>
  The offset of the request number \<open>k\<close> (from \<open>0\<close>) of a pagination that starts at
  \<open>start\<close> against a service that never raises: the start plus the number of records
  the earlier requests returned.
\<close>

fun offset_at :: "(nat \<Rightarrow> 'tx list \<times> nat) \<Rightarrow> nat \<Rightarrow> nat \<Rightarrow> nat" where
  "offset_at srv start 0 = start"
| "offset_at srv start (Suc k) =
     offset_at srv start k + length (fst (srv (offset_at srv start k)))"

text \<open>
  After request number \<open>k\<close>, the records returned so far are at least as many as the
  total which that request reported.
\<close>

definition total_reached :: "(nat \<Rightarrow> 'tx list \<times> nat) \<Rightarrow> nat \<Rightarrow> nat \<Rightarrow> bool" where
  "total_reached srv start k =
     (snd (srv (offset_at srv start k)) \<le> offset_at srv start (Suc k))"

text \<open>
  A bag that lacks a required field: no transaction hash, or no \<open>id\<close> (nor \<open>id1\<close>) that
  starts with a letter or a slash.
\<close>

definition malformed_bag :: "py_dict \<Rightarrow> bool" where
  "malformed_bag d =
     (map_of d ''TxnHash'' = None \<or>
      (case py_or (map_of d ''id'') (map_of d ''id1'') of
         None \<Rightarrow> True
       | Some s \<Rightarrow> s = [] \<or> \<not> is_trade_pair_char (hd s)))"

text \<open>
  The text that \<open>str\<close> gives for the events of a log: the events between brackets,
  separated by a comma and a blank, each printed in the protobuf text format with its
  type and then one block per attribute.
\<close>

definition attribute_text :: "string \<Rightarrow> string \<Rightarrow> string" where
  "attribute_text k v =
     ''attributes {'' @ [CHR 0x0A] @ ''  key: '' @ dquote @ k @ dquote @ [CHR 0x0A] @
     ''  value: '' @ dquote @ v @ dquote @ [CHR 0x0A] @ ''}'' @ [CHR 0x0A]"

definition event_text :: "string \<Rightarrow> (string \<times> string) list \<Rightarrow> string" where
  "event_text ty attrs =
     ''type: '' @ dquote @ ty @ dquote @ [CHR 0x0A] @
     concat (map (\<lambda>kv. attribute_text (fst kv) (snd kv)) attrs)"

fun join_events :: "string list \<Rightarrow> string" where
  "join_events [] = []"
| "join_events [e] = e"
| "join_events (e # es) = e @ '', '' @ join_events es"

definition log_text :: "string list \<Rightarrow> string" where
  "log_text evs = ''['' @ join_events evs @ '']''"

text \<open>
  Query services used as examples: one that holds a list of records and serves it in pages
  of a fixed size, one that returns more records than the total it reports, one whose
  reported total drops so that its last answer is empty, and one that returns nothing
  and reports a total of one.
\<close>

definition paged_service :: "'tx list \<Rightarrow> nat \<Rightarrow> 'tx tx_service" where
  "paged_service records page_size queries offset =
     Inr (take page_size (drop offset records), length records)"

definition oversupplying_service :: "nat tx_service" where
  "oversupplying_service queries offset = Inr ([1, 2, 3], 2)"

definition shrinking_total :: "nat \<Rightarrow> nat list \<times> nat" where
  "shrinking_total offset = (if offset = 0 then ([1, 2], 3) else ([], 2))"

definition stalled :: "nat \<Rightarrow> nat list \<times> nat" where
  "stalled offset = ([], 1)"

text \<open>
  The bags that the parser builds for the wasm-tagged events of one log of a transaction
  with hash \<open>h\<close>, as \<open>filter_event\<close> builds them, or the exception in place of a bag.
\<close>

definition log_bags :: "string \<Rightarrow> string \<Rightarrow> (error + py_dict) list" where
  "log_bags h events = map (parse_bag h) (filter (str_contains wasm_tag) (json_events events))"

text \<open>
  Example transactions with one log of one wasm event each: one whose event carries an
  id, with the event it decodes to, and one whose event carries none.  Example file
  systems: one without any file and one where every file is unparsable.
\<close>

definition good_tx :: "string \<Rightarrow> TxResponse" where
  "good_tx h = \<lparr> txhash = h, logs = [log_text [event_text ''wasm''
      [(''_contract_address'', ''C''), (''id'', ''AB/CD-1'')]]] \<rparr>"

definition bad_tx :: "string \<Rightarrow> TxResponse" where
  "bad_tx h = \<lparr> txhash = h, logs = [log_text [event_text ''wasm''
      [(''_contract_address'', ''C'')]]] \<rparr>"

definition good_event :: "string \<Rightarrow> Event" where
  "good_event h =
     Event_init (Some ''AB/CD-1'') h None None None None ''AB/CD'' None None None None
       (Some PyNone)"

definition no_files :: file_system where
  "no_files name = None"

definition corrupt_files :: file_system where
  "corrupt_files name = Some NotJson"

section \<open>Trade-pair extraction\<close>

lemma re_match_run:
  assumes "s \<noteq> []" "is_trade_pair_char (hd s)"
  shows "re_match_trade_pair s = Some (takeWhile is_trade_pair_char s)"
  using assms by (cases s) (simp_all add: re_match_trade_pair_def)

lemma re_match_none:
  assumes "s = [] \<or> \<not> is_trade_pair_char (hd s)"
  shows "re_match_trade_pair s = None"
  using assms by (cases s) (simp_all add: re_match_trade_pair_def)

text \<open>
  Claim C4.  For an id \<open>s\<close> whose first character is an ASCII letter or a slash,
  \<open>extract_trade_pair\<close> returns the maximal leading run of such characters: a non-empty
  prefix \<open>tp\<close> of \<open>s\<close> made of such characters only, after which \<open>s\<close> ends or goes on
  with a character of another kind.  For an id that starts with any other character
  (and for the empty id) the extraction raises \<open>AttributeError\<close>, and so does the
  decoding by \<open>from_dict\<close> of every bag that has a transaction hash and this id.
\<close>

theorem extract_trade_pair_leading_run:
  "(s \<noteq> [] \<and> is_trade_pair_char (hd s) \<longrightarrow>
      (\<exists>tp rest. extract_trade_pair (Some s) = Inr tp \<and> s = tp @ rest \<and> tp \<noteq> [] \<and>
                 (\<forall>c \<in> set tp. is_trade_pair_char c) \<and>
                 (rest = [] \<or> \<not> is_trade_pair_char (hd rest)))) \<and>
   (s = [] \<or> \<not> is_trade_pair_char (hd s) \<longrightarrow>
      extract_trade_pair (Some s) = Inl AttributeError \<and>
      (\<forall>d h. map_of d ''TxnHash'' = Some h \<and>
             py_or (map_of d ''id'') (map_of d ''id1'') = Some s \<longrightarrow>
             from_dict d = Inl AttributeError))"
proof (intro conjI impI)
  assume a: "s \<noteq> [] \<and> is_trade_pair_char (hd s)"
  let ?tp = "takeWhile is_trade_pair_char s" and ?rest = "dropWhile is_trade_pair_char s"
  have 1: "extract_trade_pair (Some s) = Inr ?tp"
    using a by (simp add: extract_trade_pair_def re_match_run)
  have 2: "?tp \<noteq> []" using a by (cases s) simp_all
  have 3: "\<forall>c \<in> set ?tp. is_trade_pair_char c" by (auto dest: set_takeWhileD)
  have 4: "?rest = [] \<or> \<not> is_trade_pair_char (hd ?rest)" using hd_dropWhile by blast
  show "\<exists>tp rest. extract_trade_pair (Some s) = Inr tp \<and> s = tp @ rest \<and> tp \<noteq> [] \<and>
                 (\<forall>c \<in> set tp. is_trade_pair_char c) \<and>
                 (rest = [] \<or> \<not> is_trade_pair_char (hd rest))"
    using 1 2 3 4 by (intro exI[of _ ?tp] exI[of _ ?rest]) simp
next
  assume "s = [] \<or> \<not> is_trade_pair_char (hd s)"
  then show "extract_trade_pair (Some s) = Inl AttributeError"
    by (simp add: extract_trade_pair_def re_match_none)
next
  assume a: "s = [] \<or> \<not> is_trade_pair_char (hd s)"
  then have "extract_trade_pair (Some s) = Inl AttributeError"
    by (simp add: extract_trade_pair_def re_match_none)
  then show "\<forall>d h. map_of d ''TxnHash'' = Some h \<and>
             py_or (map_of d ''id'') (map_of d ''id1'') = Some s \<longrightarrow>
             from_dict d = Inl AttributeError"
    by (simp add: from_dict_def Let_def)
qed

theorem extract_trade_pair_leading_run_witness:
  "(\<exists>tp rest. extract_trade_pair (Some ''ABC/XYZ-17'') = Inr tp \<and> ''ABC/XYZ-17'' = tp @ rest \<and>
       tp \<noteq> [] \<and> (\<forall>c \<in> set tp. is_trade_pair_char c) \<and>
       (rest = [] \<or> \<not> is_trade_pair_char (hd rest))) \<and>
   extract_trade_pair (Some ''ABC/XYZ-17'') = Inr ''ABC/XYZ'' \<and>
   extract_trade_pair (Some ''7ABC/XYZ'') = Inl AttributeError \<and>
   from_dict [(''TxnHash'', ''H''), (''id1'', ''7ABC/XYZ'')] = Inl AttributeError"
proof -
  have letter: "''ABC/XYZ-17'' \<noteq> [] \<and> is_trade_pair_char (hd ''ABC/XYZ-17'')"
    by (simp add: is_trade_pair_char_def)
  have digit: "''7ABC/XYZ'' = [] \<or> \<not> is_trade_pair_char (hd ''7ABC/XYZ'')"
    by (simp add: is_trade_pair_char_def)
  have bag: "map_of [(''TxnHash'', ''H''), (''id1'', ''7ABC/XYZ'')] ''TxnHash'' = Some ''H'' \<and>
             py_or (map_of [(''TxnHash'', ''H''), (''id1'', ''7ABC/XYZ'')] ''id'')
                   (map_of [(''TxnHash'', ''H''), (''id1'', ''7ABC/XYZ'')] ''id1'') = Some ''7ABC/XYZ''"
    by (simp add: py_or_def)
  have run: "extract_trade_pair (Some ''ABC/XYZ-17'') = Inr ''ABC/XYZ''"
    by (simp add: extract_trade_pair_def re_match_trade_pair_def is_trade_pair_char_def)
  show ?thesis
    using extract_trade_pair_leading_run [of "''ABC/XYZ-17''"]
          extract_trade_pair_leading_run [of "''7ABC/XYZ''"] letter digit bag run
    by blast
qed

section \<open>Pagination\<close>

lemma query_loop_stop:
  assumes "txs queries offset = Inr (page, tot)" "tot \<le> offset + length page"
  shows "query_loop txs queries offset res calls = Some (Inr (res @ page), calls @ [offset])"
  using assms by (subst query_loop.simps) simp

lemma query_loop_continue:
  assumes "txs queries offset = Inr (page, tot)" "offset + length page < tot"
  shows "query_loop txs queries offset res calls =
         query_loop txs queries (offset + length page) (res @ page) (calls @ [offset])"
  using assms by (subst query_loop.simps) (simp add: Let_def)

lemma offset_at_shift:
  "offset_at srv start (Suc k) = offset_at srv (start + length (fst (srv start))) k"
  by (induction k) simp_all

lemma total_reached_shift:
  "total_reached srv start (Suc k) = total_reached srv (start + length (fst (srv start))) k"
  unfolding total_reached_def by (simp only: offset_at_shift)

lemma upt_Suc_shift: "map f [0..<Suc (Suc n)] = f 0 # map (\<lambda>k. f (Suc k)) [0..<Suc n]"
  by (simp only: upt_conv_Cons[of 0 "Suc (Suc n)"] map_Suc_upt[symmetric]) (simp add: comp_def)

lemma query_loop_first_reach:
  assumes "total_reached srv start n" "\<forall>k<n. \<not> total_reached srv start k"
  shows "query_loop (\<lambda>qs off. Inr (srv off)) queries start res calls =
         Some (Inr (res @ concat (map (\<lambda>k. fst (srv (offset_at srv start k))) [0..<Suc n])),
               calls @ map (offset_at srv start) [0..<Suc n])"
  using assms
proof (induction n arbitrary: start res calls)
  case 0
  then have "snd (srv start) \<le> start + length (fst (srv start))"
    by (simp add: total_reached_def)
  then show ?case
    using query_loop_stop [of "\<lambda>qs off. Inr (srv off)" queries start "fst (srv start)" "snd (srv start)" res calls]
    by simp
next
  case (Suc n)
  let ?next = "start + length (fst (srv start))"
  from Suc.prems(2) have "\<not> total_reached srv start 0" by blast
  then have lt: "start + length (fst (srv start)) < snd (srv start)"
    by (simp add: total_reached_def)
  have r: "total_reached srv ?next n"
    using Suc.prems(1) by (simp only: total_reached_shift)
  have nr: "\<forall>k<n. \<not> total_reached srv ?next k"
  proof (intro allI impI)
    fix k assume "k < n"
    then have "\<not> total_reached srv start (Suc k)" using Suc.prems(2) by simp
    then show "\<not> total_reached srv ?next k" by (simp add: total_reached_shift)
  qed
  have step: "query_loop (\<lambda>qs off. Inr (srv off)) queries start res calls =
        query_loop (\<lambda>qs off. Inr (srv off)) queries ?next (res @ fst (srv start)) (calls @ [start])"
    using query_loop_continue [of "\<lambda>qs off. Inr (srv off)" queries start "fst (srv start)" "snd (srv start)" res calls] lt
    by simp
  have shift: "\<And>k. offset_at srv ?next k = offset_at srv start (Suc k)"
    by (simp only: offset_at_shift)
  show ?case
    unfolding step Suc.IH [OF r nr] upt_Suc_shift shift
    by simp
qed

lemma query_loop_returns_reach:
  assumes "query_loop txs queries start res calls = Some y"
      and "\<forall>qs off. txs qs off = Inr (srv off)"
  shows "\<exists>n. total_reached srv start n"
  using assms
proof (induction txs queries start res calls y rule: query_loop.raw_induct)
  case (1 loop txs queries offset res calls y)
  have ok: "txs queries offset = Inr (fst (srv offset), snd (srv offset))"
    using "1.prems"(2) by simp
  show ?case
  proof (cases "snd (srv offset) \<le> offset + length (fst (srv offset))")
    case True
    then have "total_reached srv offset 0" by (simp add: total_reached_def)
    then show ?thesis by blast
  next
    case False
    with "1.hyps" ok have a: "loop txs queries (offset + length (fst (srv offset)))
                      (res @ fst (srv offset)) (calls @ [offset]) = Some y"
      by (simp add: Let_def)
    from False "1.prems"(1) ok
      query_loop_continue [of txs queries offset "fst (srv offset)" "snd (srv offset)" res calls]
    have b: "query_loop txs queries (offset + length (fst (srv offset)))
                      (res @ fst (srv offset)) (calls @ [offset]) = Some y"
      by simp
    from "1.IH" [OF a b "1.prems"(2)] obtain n
      where "total_reached srv (offset + length (fst (srv offset))) n" by blast
    then have "total_reached srv offset (Suc n)" by (simp only: total_reached_shift)
    then show ?thesis by blast
  qed
qed (rule assms(1))

lemma query_loop_never_reach:
  assumes "\<forall>k. \<not> total_reached srv start k"
  shows "query_loop (\<lambda>qs off. Inr (srv off)) queries start res calls = None"
proof (cases "query_loop (\<lambda>qs off. Inr (srv off)) queries start res calls")
  case None then show ?thesis .
next
  case (Some y)
  from query_loop_returns_reach [OF this, of srv] assms show ?thesis by blast
qed

lemma query_loop_pages:
  assumes "ps \<noteq> []" "\<forall>p \<in> set ps. p \<noteq> []"
      and "\<forall>i<length ps. txs queries (start + length (concat (take i ps))) =
                          Inr (ps ! i, start + length (concat ps))"
  shows "query_loop txs queries start res calls =
         Some (Inr (res @ concat ps),
               calls @ map (\<lambda>i. start + length (concat (take i ps))) [0..<length ps])"
  using assms
proof (induction ps arbitrary: start res calls rule: list_nonempty_induct)
  case (single p)
  from single.prems(2) have "txs queries start = Inr (p, start + length p)" by simp
  from query_loop_stop [of txs queries start p "start + length p" res calls] this
  show ?case by simp
next
  case (cons p ps)
  from cons.prems(2) have first: "txs queries start = Inr (p, start + length (concat (p # ps)))"
    by fastforce
  from cons.hyps cons.prems(1) have "concat ps \<noteq> []" by (cases ps) auto
  then have lt: "start + length p < start + length (concat (p # ps))" by simp
  have rest: "\<forall>i<length ps. txs queries (start + length p + length (concat (take i ps))) =
                Inr (ps ! i, start + length p + length (concat ps))"
  proof (intro allI impI)
    fix i assume "i < length ps"
    then have "Suc i < length (p # ps)" by simp
    with cons.prems(2) have "txs queries (start + length (concat (take (Suc i) (p # ps)))) =
                Inr ((p # ps) ! Suc i, start + length (concat (p # ps)))" by blast
    then show "txs queries (start + length p + length (concat (take i ps))) =
                Inr (ps ! i, start + length p + length (concat ps))"
      by (simp add: add.assoc)
  qed
  have ne: "\<forall>p \<in> set ps. p \<noteq> []" using cons.prems(1) by simp
  have idx: "map (\<lambda>i. start + length (concat (take i (p # ps)))) [0..<length (p # ps)] =
             start # map (\<lambda>i. start + length p + length (concat (take i ps))) [0..<length ps]"
    by (simp add: upt_conv_Cons map_Suc_upt[symmetric] del: upt_Suc) 
  show ?case
    unfolding query_loop_continue [of txs queries start p "start + length (concat (p # ps))"
                res calls, OF first lt]
              cons.IH [OF ne rest] idx
    by simp
qed

text \<open>
  Claim C3.  Let the pages \<open>ps\<close>, none of them empty, partition the total the service
  reports: asked at the offset that is the number of records of the pages before page
  \<open>i\<close>, the service answers with page \<open>i\<close> and the total \<open>length (concat ps)\<close>.
  Then the paginated query returns, and it sends one request per page, at exactly these
  offsets and in this order, and returns the concatenation of the pages in order, each
  record once.  For 250 records served in pages of 100 the requests are at 0, 100 and 200.
\<close>

theorem pagination_concatenates_pages:
  assumes "ps \<noteq> []" "\<forall>p \<in> set ps. p \<noteq> []"
      and "\<forall>i<length ps. txs queries (length (concat (take i ps))) =
                          Inr (ps ! i, length (concat ps))"
  shows "query_txs_events txs queries =
         Some (Inr (concat ps), map (\<lambda>i. length (concat (take i ps))) [0..<length ps])"
  using query_loop_pages [of ps txs queries 0 "[]" "[]"] assms
  by (simp add: query_txs_events_def)

theorem pagination_concatenates_pages_witness:
  "query_txs_events (paged_service [0..<250] 100) [] = Some (Inr [0..<250], [0, 100, 200])"
proof -
  let ?ps = "[[0..<100], [100..<200], [200..<250]]"
  have a: "?ps \<noteq> []" by simp
  have b: "\<forall>p \<in> set ?ps. p \<noteq> []" by simp
  have c: "\<forall>i<length ?ps. paged_service [0..<250] 100 [] (length (concat (take i ?ps))) =
                          Inr (?ps ! i, length (concat ?ps))"
    by (simp add: paged_service_def less_Suc_eq numeral_3_eq_3)
  have d: "concat ?ps = [0..<250]"
    using upt_add_eq_append [of 0 100 150] upt_add_eq_append [of 100 200 50]
    by (simp del: upt_rec_numeral)
  have e: "map (\<lambda>i. length (concat (take i ?ps))) [0..<length ?ps] = [0, 100, 200]"
    by (simp add: upt_conv_Cons)
  show ?thesis
    using pagination_concatenates_pages [of ?ps "paged_service [0..<250] 100" "[]", OF a b c]
    unfolding d e .
qed

text \<open>
  Claim C8, as amended.  Against a service that never raises, the pagination loop ends
  after the first request by which the number of records returned so far has reached or
  passed the total that this request reported (\<open>offset \<ge> total\<close>), whether or not that
  request returned any record; it then returns the pages of all its requests.  If no
  request ever brings the count to the reported total, the loop never ends.
\<close>

theorem pagination_stops_when_total_reached:
  "(total_reached srv 0 n \<and> (\<forall>k<n. \<not> total_reached srv 0 k) \<longrightarrow>
      query_txs_events (\<lambda>qs off. Inr (srv off)) queries =
        Some (Inr (concat (map (\<lambda>k. fst (srv (offset_at srv 0 k))) [0..<Suc n])),
              map (offset_at srv 0) [0..<Suc n])) \<and>
   ((\<forall>k. \<not> total_reached srv 0 k) \<longrightarrow>
      query_txs_events (\<lambda>qs off. Inr (srv off)) queries = None)"
  using query_loop_first_reach [of srv 0 n queries "[]" "[]"]
        query_loop_never_reach [of srv 0 queries "[]" "[]"]
  by (simp add: query_txs_events_def)

lemma stalled_offset: "offset_at stalled 0 k = 0"
  by (induction k) (simp_all add: stalled_def)

theorem pagination_stops_when_total_reached_witness:
  "query_txs_events (\<lambda>qs off. Inr (shrinking_total off)) [] = Some (Inr [1, 2], [0, 2]) \<and>
   query_txs_events (\<lambda>qs off. Inr (stalled off)) [] = None"
proof -
  have r: "total_reached shrinking_total 0 1 \<and> (\<forall>k<1. \<not> total_reached shrinking_total 0 k)"
    by (simp add: total_reached_def shrinking_total_def)
  have n: "\<forall>k. \<not> total_reached stalled 0 k"
    by (simp add: total_reached_def stalled_offset) (simp add: stalled_def)
  have v: "concat (map (\<lambda>k. fst (shrinking_total (offset_at shrinking_total 0 k))) [0..<Suc 1]) = [1, 2]"
          "map (offset_at shrinking_total 0) [0..<Suc 1] = [0, 2]"
    by (simp_all add: shrinking_total_def)
  show ?thesis
    using pagination_stops_when_total_reached [of shrinking_total 1 "[]"]
          pagination_stops_when_total_reached [of stalled 0 "[]"] r n
    unfolding v by blast
qed

text \<open>
  The condition is not \<open>offset = total\<close>: a service that returns three records and
  reports a total of two ends the loop after one request, with the count at three.
\<close>

theorem pagination_offset_equals_total_counterexample:
  "query_txs_events oversupplying_service [] = Some (Inr [1, 2, 3], [0]) \<and>
   0 + length [1, 2, 3 :: nat] \<noteq> 2"
  by (simp add: query_txs_events_def oversupplying_service_def
        query_loop_stop [of oversupplying_service "[]" 0 "[1, 2, 3]" 2])

section \<open>The attribute bag\<close>

text \<open>
  Claim C1.  The claim has the first of two \<open>action\<close> entries stored under \<open>action\<close> and
  the second under \<open>action1\<close>.  The parser stores every entry that is not a contract
  address under its key followed by \<open>1\<close>, so the second entry overwrites the first: for
  the attributes \<open>action = create\<close>, \<open>action = transfer\<close> the bag holds the transaction
  hash and \<open>action1 = transfer\<close>, and no key \<open>action\<close>.
\<close>

theorem duplicate_action_bag:
  "log_bags ''H'' (log_text [event_text ''wasm'' [(''action'', ''create''), (''action'', ''transfer'')]])
   = [Inr [(''TxnHash'', ''H''), (''action1'', ''transfer'')]]"
  by code_simp

text \<open>
  Claim C2.  The claim has the first of two \<open>_contract_address\<close> entries stored under the
  cw20 key and the second under the escrow key wherever they stand.  The parser does so
  when the first of them is the first attribute of the event.  When another attribute
  comes before it, the bag no longer holds the transaction hash alone, the first
  contract address goes under the escrow key too and the second overwrites it: the bag
  has no cw20 key.
\<close>

theorem contract_address_after_other_key_bag:
  "log_bags ''H'' (log_text [event_text ''wasm''
      [(''_contract_address'', ''A''), (''_contract_address'', ''B''), (''action'', ''create'')]])
   = [Inr [(''TxnHash'', ''H''), (''cw20_contract_address'', ''A''),
           (''escrow_contract_address'', ''B''), (''action1'', ''create'')]] \<and>
   log_bags ''H'' (log_text [event_text ''wasm''
      [(''action'', ''create''), (''_contract_address'', ''A''), (''_contract_address'', ''B'')]])
   = [Inr [(''TxnHash'', ''H''), (''action1'', ''create''), (''escrow_contract_address'', ''B'')]]"
  by code_simp

section \<open>Decoding\<close>

text \<open>
  Claim C9.  The claim has \<open>match_others\<close> be \<open>True\<close> when the bag has neither
  \<open>match_others\<close> nor \<open>match_others1\<close>.  \<open>from_dict\<close> passes the \<open>None\<close> that
  \<open>dict.get\<close> returned to the constructor, whose default \<open>True\<close> is for an omitted
  argument only: the decoded event has \<open>match_others = None\<close>.
\<close>

theorem match_others_absent_is_none:
  "map_sum (\<lambda>e. e) match_others (from_dict [(''TxnHash'', ''H''), (''id'', ''AB/CD-1'')]) = Inr PyNone"
  by (simp add: from_dict_def py_or_def extract_trade_pair_def re_match_trade_pair_def
        is_trade_pair_char_def Event_init_def)

lemma for_each_fails:
  assumes "x \<in> set xs" "\<forall>s. isl (body s x)"
  shows "isl (for_each body s xs)"
  using assms
proof (induction xs arbitrary: s)
  case Nil then show ?case by simp
next
  case (Cons a xs)
  show ?case
  proof (cases "body s a")
    case (Inl e) then show ?thesis by simp
  next
    case (Inr s')
    have "a \<noteq> x"
    proof
      assume "a = x"
      with Inr have "\<not> isl (body s x)" by simp
      with Cons.prems(2) show False by blast
    qed
    with Cons.prems(1) have "x \<in> set xs" by simp
    from Cons.IH [OF this Cons.prems(2)] Inr show ?thesis by simp
  qed
qed

lemma malformed_bag_decode:
  assumes "malformed_bag d"
  shows "from_dict d \<in> {Inl KeyError, Inl TypeError, Inl AttributeError}"
proof (cases "map_of d ''TxnHash''")
  case None then show ?thesis by (simp add: from_dict_def)
next
  case (Some h)
  show ?thesis
  proof (cases "py_or (map_of d ''id'') (map_of d ''id1'')")
    case None
    with Some show ?thesis by (simp add: from_dict_def extract_trade_pair_def Let_def)
  next
    case (Some s)
    with assms \<open>map_of d ''TxnHash'' = Some h\<close> have "s = [] \<or> \<not> is_trade_pair_char (hd s)"
      by (simp add: malformed_bag_def)
    then have "re_match_trade_pair s = None" by (rule re_match_none)
    with Some \<open>map_of d ''TxnHash'' = Some h\<close> show ?thesis
      by (simp add: from_dict_def extract_trade_pair_def Let_def)
  qed
qed

lemma load_contract_address:
  assumes "load_processed_events discard fs self = Inr self1"
  shows "contract_address self1 = contract_address self"
  using assms
  by (auto simp: load_processed_events_def split: if_splits sum.splits)

lemma malformed_bag_filter_events:
  assumes "tx \<in> set resp" "events \<in> set (logs tx)" "event \<in> set (json_events events)"
      and "str_contains wasm_tag event" "parse_bag (txhash tx) event = Inr d"
      and "\<not> action_mismatch action_type d" "\<not> wallet_mismatch user_wallet_address d"
      and "malformed_bag d"
  shows "isl (filter_events resp action_type user_wallet_address)"
proof -
  from malformed_bag_decode [OF assms(8)] have "isl (from_dict d)" by auto
  then have "\<forall>acc. isl (filter_event action_type user_wallet_address (txhash tx) acc event)"
    using assms(4-7) by (auto simp: filter_event_def split: sum.splits)
  then have "\<forall>acc. isl (filter_log action_type user_wallet_address (txhash tx) acc events)"
    unfolding filter_log_def
    using for_each_fails [of event "json_events events"
            "filter_event action_type user_wallet_address (txhash tx)"] assms(3)
    by simp
  then have "\<forall>acc. isl (filter_tx action_type user_wallet_address acc tx)"
    unfolding filter_tx_def
    using for_each_fails [of events "logs tx"
            "filter_log action_type user_wallet_address (txhash tx)"] assms(2)
    by simp
  then show ?thesis
    unfolding filter_events_def
    using for_each_fails [of tx resp "filter_tx action_type user_wallet_address"] assms(1)
    by simp
qed

lemma fetch_events_filter_fails:
  assumes "load_processed_events discard fs self = Inr self1"
      and "get_events txs (contract_address self) None = Some (Inr resp, calls)"
      and "filter_events resp action_type user_wallet_address = Inl e"
  shows "fetch_events txs discard action_type user_wallet_address (self, fs) = Some (Inl e, self1, fs)"
  using assms load_contract_address [OF assms(1)]
  by (simp add: fetch_events_def)

lemma good_alone: "filter_events [good_tx ''H1''] None None = Inr [good_event ''H1'']"
  by code_simp

lemma bad_then_good: "filter_events [bad_tx ''H0'', good_tx ''H1''] None None = Inl TypeError"
  by code_simp

lemma good_twice:
  "filter_events [good_tx ''H1'', good_tx ''H2''] None None = Inr [good_event ''H1'', good_event ''H2'']"
  by code_simp

lemma paged_service_single_page:
  assumes "length records \<le> page_size"
  shows "get_events (paged_service records page_size) ca None = Some (Inr records, [0])"
  using assms
    query_loop_stop [of "paged_service records page_size" _ 0 records "length records" "[]" "[]"]
  by (simp add: get_events_def query_txs_events_def paged_service_def)

lemma load_fresh_no_files:
  "load_processed_events discard no_files (EventRetriever_init ca url None) =
     Inr (EventRetriever_init ca url None)"
  by (simp add: load_processed_events_def read_json_set_def no_files_def)

text \<open>
  Claim C5, as amended.  Decoding a bag that lacks a required field raises \<open>KeyError\<close>
  (no transaction hash), \<open>TypeError\<close> (no id) or \<open>AttributeError\<close> (an id that does not
  start with a letter or a slash).  Nothing catches the exception: when a wasm-tagged
  event of a transaction of the response parses into such a bag and the bag passes the
  action and wallet filters, \<open>_filter_events\<close> raises, and a \<open>fetch_events\<close> call
  whose query returned this response raises the same exception, returns no event and
  leaves the files as they were.
\<close>

theorem malformed_bag_aborts_pass:
  "(malformed_bag d \<longrightarrow> from_dict d \<in> {Inl KeyError, Inl TypeError, Inl AttributeError}) \<and>
   (malformed_bag d \<and> tx \<in> set resp \<and> events \<in> set (logs tx) \<and>
    event \<in> set (json_events events) \<and> str_contains wasm_tag event \<and>
    parse_bag (txhash tx) event = Inr d \<and>
    \<not> action_mismatch action_type d \<and> \<not> wallet_mismatch user_wallet_address d \<longrightarrow>
      (\<exists>e. filter_events resp action_type user_wallet_address = Inl e \<and>
           (load_processed_events discard fs self = Inr self1 \<and>
            get_events txs (contract_address self) None = Some (Inr resp, calls) \<longrightarrow>
              fetch_events txs discard action_type user_wallet_address (self, fs) =
                Some (Inl e, self1, fs))))"
proof (intro conjI impI)
  assume "malformed_bag d"
  then show "from_dict d \<in> {Inl KeyError, Inl TypeError, Inl AttributeError}"
    by (rule malformed_bag_decode)
next
  assume a: "malformed_bag d \<and> tx \<in> set resp \<and> events \<in> set (logs tx) \<and>
    event \<in> set (json_events events) \<and> str_contains wasm_tag event \<and>
    parse_bag (txhash tx) event = Inr d \<and>
    \<not> action_mismatch action_type d \<and> \<not> wallet_mismatch user_wallet_address d"
  then have "isl (filter_events resp action_type user_wallet_address)"
    using malformed_bag_filter_events [of tx resp events event d action_type user_wallet_address]
    by blast
  then obtain e where e: "filter_events resp action_type user_wallet_address = Inl e"
    by (cases "filter_events resp action_type user_wallet_address") auto
  show "\<exists>e. filter_events resp action_type user_wallet_address = Inl e \<and>
           (load_processed_events discard fs self = Inr self1 \<and>
            get_events txs (contract_address self) None = Some (Inr resp, calls) \<longrightarrow>
              fetch_events txs discard action_type user_wallet_address (self, fs) =
                Some (Inl e, self1, fs))"
    using e fetch_events_filter_fails [of discard fs self self1 txs resp calls action_type user_wallet_address e]
    by blast
qed

theorem malformed_bag_aborts_pass_witness:
  "malformed_bag [(''TxnHash'', ''H0''), (''cw20_contract_address'', ''C'')] \<and>
   from_dict [(''TxnHash'', ''H0''), (''cw20_contract_address'', ''C'')]
     \<in> {Inl KeyError, Inl TypeError, Inl AttributeError} \<and>
   (\<exists>e. filter_events [bad_tx ''H0'', good_tx ''H1''] None None = Inl e \<and>
        fetch_events (paged_service [bad_tx ''H0'', good_tx ''H1''] 100) True None None
          (EventRetriever_init ''C'' ''url'' None, no_files) =
          Some (Inl e, EventRetriever_init ''C'' ''url'' None, no_files))"
proof -
  let ?d = "[(''TxnHash'', ''H0''), (''cw20_contract_address'', ''C'')]"
  let ?events = "log_text [event_text ''wasm'' [(''_contract_address'', ''C'')]]"
  let ?event = "hd (json_events ?events)"
  let ?resp = "[bad_tx ''H0'', good_tx ''H1'']"
  let ?self = "EventRetriever_init ''C'' ''url'' None"
  have h1: "malformed_bag ?d" by code_simp
  have h2: "bad_tx ''H0'' \<in> set ?resp" by simp
  have h3: "?events \<in> set (logs (bad_tx ''H0''))" by (simp add: bad_tx_def)
  have h4: "?event \<in> set (json_events ?events)" by code_simp
  have h5: "str_contains wasm_tag ?event" by code_simp
  have h6: "parse_bag (txhash (bad_tx ''H0'')) ?event = Inr ?d" by code_simp
  have h7: "\<not> action_mismatch None ?d" "\<not> wallet_mismatch None ?d"
    by (simp_all add: action_mismatch_def wallet_mismatch_def)
  have h8: "load_processed_events True no_files ?self = Inr ?self"
    by (rule load_fresh_no_files)
  have h9: "get_events (paged_service ?resp 100) (contract_address ?self) None = Some (Inr ?resp, [0])"
    by (rule paged_service_single_page) simp
  show ?thesis
    using malformed_bag_aborts_pass [of ?d "bad_tx ''H0''" ?resp ?events ?event None None True
            no_files ?self ?self "paged_service ?resp 100" "[0]"]
          h1 h2 h3 h4 h5 h6 h7 h8 h9
    by blast
qed

text \<open>
  The bag is not skipped: with a transaction whose bag has no id before one that decodes
  well on its own, the call raises \<open>TypeError\<close> and returns nothing.
\<close>

theorem malformed_bag_skipped_counterexample:
  "filter_events [good_tx ''H1''] None None = Inr [good_event ''H1''] \<and>
   fetch_events (paged_service [bad_tx ''H0'', good_tx ''H1''] 100) True None None
     (EventRetriever_init ''C'' ''url'' None, no_files) =
     Some (Inl TypeError, EventRetriever_init ''C'' ''url'' None, no_files)"
  using fetch_events_filter_fails [OF load_fresh_no_files
          paged_service_single_page [of "[bad_tx ''H0'', good_tx ''H1'']" 100] bad_then_good]
        good_alone
  by simp

section \<open>Loading the processed events\<close>

text \<open>
  Claim C6, as amended.  With the flag set, \<open>load_processed_events\<close> on a missing file
  raises nothing and leaves the set of the retriever as it was, which is the empty set
  on a retriever just constructed; on a file that is not JSON it raises
  \<open>JSONDecodeError\<close>.
\<close>

theorem load_absent_or_corrupt_store:
  "(fs (processed_events_file self) = None \<longrightarrow> load_processed_events True fs self = Inr self) \<and>
   (fs (processed_events_file self) = Some NotJson \<longrightarrow>
      load_processed_events True fs self = Inl JSONDecodeError) \<and>
   processed_events (EventRetriever_init ca url file_name) = {}"
  by (simp add: load_processed_events_def read_json_set_def EventRetriever_init_def)

theorem load_absent_or_corrupt_store_witness:
  "load_processed_events True no_files (EventRetriever_init ''C'' ''url'' None) =
     Inr (EventRetriever_init ''C'' ''url'' None) \<and>
   processed_events (EventRetriever_init ''C'' ''url'' None) = {} \<and>
   load_processed_events True corrupt_files (EventRetriever_init ''C'' ''url'' None) =
     Inl JSONDecodeError"
  using load_absent_or_corrupt_store [of no_files "EventRetriever_init ''C'' ''url'' None" "''C''" "''url''" None]
        load_absent_or_corrupt_store [of corrupt_files "EventRetriever_init ''C'' ''url'' None" "''C''" "''url''" None]
  by (simp add: no_files_def corrupt_files_def)

text \<open>
  A corrupt file is not treated as a missing one: the decoding error leaves the method.
\<close>

theorem load_corrupt_store_counterexample:
  "load_processed_events True corrupt_files (EventRetriever_init ''C'' ''url'' None) =
     Inl JSONDecodeError"
  by (simp add: load_processed_events_def read_json_set_def corrupt_files_def)

section \<open>Fetching with and without the processed-events file\<close>





text \<open>
  Claim C10.  A call of \<open>fetch_events\<close> with the flag unset leaves the retriever, its
  set included, and the files as they were, whatever it returns or raises, and what it
  returns or raises does not depend on the files.  When the query returns a response
  whose matching events are \<open>evs\<close>, the call returns the events of \<open>evs\<close> whose hash is
  not in the set of the retriever; that is all of \<open>evs\<close> when the set is empty, as it
  is on a retriever just constructed.
\<close>

theorem fetch_without_dedup:
  "(fetch_events txs False action_type user_wallet_address (self, fs) = Some (r, self', fs') \<longrightarrow>
      self' = self \<and> fs' = fs) \<and>
   map_option fst (fetch_events txs False action_type user_wallet_address (self, fs)) =
     map_option fst (fetch_events txs False action_type user_wallet_address (self, fs_other)) \<and>
   (get_events txs (contract_address self) None = Some (Inr resp, calls) \<and>
    filter_events resp action_type user_wallet_address = Inr evs \<longrightarrow>
      fetch_events txs False action_type user_wallet_address (self, fs) =
        Some (Inr (filter (\<lambda>event. txn_hash event \<notin> processed_events self) evs), self, fs) \<and>
      (processed_events self = {} \<longrightarrow>
         fetch_events txs False action_type user_wallet_address (self, fs) =
           Some (Inr evs, self, fs))) \<and>
   processed_events (EventRetriever_init ca url file_name) = {}"
proof (intro conjI impI)
  assume "fetch_events txs False action_type user_wallet_address (self, fs) = Some (r, self', fs')"
  then show "self' = self" "fs' = fs"
    by (auto simp: fetch_events_def load_processed_events_def
             split: option.splits sum.splits prod.splits)
next
  show "map_option fst (fetch_events txs False action_type user_wallet_address (self, fs)) =
     map_option fst (fetch_events txs False action_type user_wallet_address (self, fs_other))"
    by (auto simp: fetch_events_def load_processed_events_def
             split: option.splits sum.splits prod.splits)
next
  assume a: "get_events txs (contract_address self) None = Some (Inr resp, calls) \<and>
    filter_events resp action_type user_wallet_address = Inr evs"
  then show f: "fetch_events txs False action_type user_wallet_address (self, fs) =
        Some (Inr (filter (\<lambda>event. txn_hash event \<notin> processed_events self) evs), self, fs)"
    by (simp add: fetch_events_def load_processed_events_def)
  assume "processed_events self = {}"
  with f show "fetch_events txs False action_type user_wallet_address (self, fs) =
           Some (Inr evs, self, fs)"
    by simp
next
  show "processed_events (EventRetriever_init ca url file_name) = {}"
    by (simp add: EventRetriever_init_def)
qed

theorem fetch_without_dedup_witness:
  "fetch_events (paged_service [good_tx ''H1'', good_tx ''H2''] 100) False None None
     ((EventRetriever_init ''C'' ''url'' None)\<lparr>processed_events := {''H1''}\<rparr>,
      no_files(''processsed_events.json'' \<mapsto> JsonArray {''H1''})) =
     Some (Inr [good_event ''H2''],
           (EventRetriever_init ''C'' ''url'' None)\<lparr>processed_events := {''H1''}\<rparr>,
           no_files(''processsed_events.json'' \<mapsto> JsonArray {''H1''})) \<and>
   fetch_events (paged_service [good_tx ''H1'', good_tx ''H2''] 100) False None None
     (EventRetriever_init ''C'' ''url'' None, no_files) =
     Some (Inr [good_event ''H1'', good_event ''H2''], EventRetriever_init ''C'' ''url'' None, no_files)"
proof -
  let ?svc = "paged_service [good_tx ''H1'', good_tx ''H2''] 100"
  let ?self = "(EventRetriever_init ''C'' ''url'' None)\<lparr>processed_events := {''H1''}\<rparr>"
  let ?fs = "no_files(''processsed_events.json'' \<mapsto> JsonArray {''H1''})"
  have q: "get_events ?svc (contract_address ?self) None =
           Some (Inr [good_tx ''H1'', good_tx ''H2''], [0])"
    by (rule paged_service_single_page) simp
  have q0: "get_events ?svc (contract_address (EventRetriever_init ''C'' ''url'' None)) None =
           Some (Inr [good_tx ''H1'', good_tx ''H2''], [0])"
    by (rule paged_service_single_page) simp
  have e: "processed_events (EventRetriever_init ''C'' ''url'' None) = {}"
    by (simp add: EventRetriever_init_def)
  show ?thesis
    using fetch_without_dedup [of ?svc None None ?self ?fs _ _ _ _
            "[good_tx ''H1'', good_tx ''H2'']" "[0]" "[good_event ''H1'', good_event ''H2'']"]
          fetch_without_dedup [of ?svc None None "EventRetriever_init ''C'' ''url'' None" no_files _ _ _ _
            "[good_tx ''H1'', good_tx ''H2'']" "[0]" "[good_event ''H1'', good_event ''H2'']"]
          q q0 good_twice e
    by (simp add: good_event_def Event_init_def)
qed

end
